theory Spec2Isabelle
  imports Main
begin

section \<open>Python values and exceptions\<close>

text \<open>
  The values that \<^verbatim>\<open>response.json()\<close> hands to the program: \<^verbatim>\<open>None\<close>, booleans, numbers,
  strings, lists and dictionaries. A dictionary is kept as the list of its key/value pairs in
  the order of the parsed text; a key written twice takes its last value, as the parser does.
  Of a number the program only ever tests whether it is zero.
\<close>

datatype pyval =
    PNone
  | PBool bool
  | PInt int
  | PStr string
  | PList "pyval list"
  | PDict "(string \<times> pyval) list"

text \<open>The exceptions that the modelled statements can raise.\<close>

datatype exn =
    ConnectionError
  | JSONDecodeError
  | AttributeError
  | TypeError
  | IndexError
  | KeyError
  | Gaierror
  | UnicodeError
  | PyException

text \<open>Truth value of an object, as tested by \<^verbatim>\<open>if x:\<close> and \<^verbatim>\<open>not x\<close>.\<close>

fun truthy :: "pyval \<Rightarrow> bool" where
  "truthy PNone = False"
| "truthy (PBool b) = b"
| "truthy (PInt n) = (n \<noteq> 0)"
| "truthy (PStr s) = (s \<noteq> [])"
| "truthy (PList xs) = (xs \<noteq> [])"
| "truthy (PDict kvs) = (kvs \<noteq> [])"

text \<open>\<^verbatim>\<open>d.get(k, default)\<close> on a dictionary.\<close>

definition dict_get :: "(string \<times> pyval) list \<Rightarrow> string \<Rightarrow> pyval \<Rightarrow> pyval" where
  "dict_get kvs k d = (case map_of (rev kvs) k of None \<Rightarrow> d | Some v \<Rightarrow> v)"

text \<open>\<^verbatim>\<open>x.get(k, default)\<close> on any value: only a dictionary has the method.\<close>

fun py_get :: "pyval \<Rightarrow> string \<Rightarrow> pyval \<Rightarrow> exn + pyval" where
  "py_get (PDict kvs) k d = Inr (dict_get kvs k d)"
| "py_get _ k d = Inl AttributeError"

text \<open>
  The items that \<^verbatim>\<open>for record in x\<close> visits: the elements of a list, the keys of a
  dictionary (each once, in the order of first appearance), the characters of a string;
  anything else is not iterable.
\<close>

fun py_iter :: "pyval \<Rightarrow> exn + pyval list" where
  "py_iter (PList xs) = Inr xs"
| "py_iter (PDict kvs) = Inr (map PStr (rev (remdups (rev (map fst kvs)))))"
| "py_iter (PStr s) = Inr (map (\<lambda>c. PStr [c]) s)"
| "py_iter _ = Inl TypeError"

text \<open>\<^verbatim>\<open>x[0]\<close>. The keys of a parsed dictionary are strings, so the key \<^verbatim>\<open>0\<close> is never there.\<close>

fun py_first :: "pyval \<Rightarrow> exn + pyval" where
  "py_first (PList []) = Inl IndexError"
| "py_first (PList (x # xs)) = Inr x"
| "py_first (PStr []) = Inl IndexError"
| "py_first (PStr (c # cs)) = Inr (PStr [c])"
| "py_first (PDict kvs) = Inl KeyError"
| "py_first _ = Inl TypeError"

text \<open>Sequencing of statements that may raise: the first exception ends the block.\<close>

definition then_py :: "exn + 'a \<Rightarrow> ('a \<Rightarrow> exn + 'b) \<Rightarrow> exn + 'b" where
  "then_py m f = (case m of Inl e \<Rightarrow> Inl e | Inr v \<Rightarrow> f v)"

section \<open>The outside world and the observable effects\<close>

datatype http_method = GET | PUT | POST

text \<open>
  The three addresses the client talks to.
  \<^item> \<open>SpeedMeta\<close> is \<^verbatim>\<open>https://speed.cloudflare.com/meta\<close>;
  \<^item> \<open>ZoneRecords z\<close> is \<^verbatim>\<open>https://api.cloudflare.com/client/v4/zones/{z}/dns_records\<close>;
  \<^item> \<open>ZoneRecord z i\<close> is \<^verbatim>\<open>https://api.cloudflare.com/client/v4/zones/{z}/dns_records/{i}\<close>,
    where the f-string renders the value \<open>i\<close>.
\<close>

datatype url =
    SpeedMeta
  | ZoneRecords string
  | ZoneRecord string pyval

record request =
  verb :: http_method
  url :: url
  headers :: "(string \<times> string) list"
  params :: "(string \<times> string) list"
  json_body :: "pyval option"
  timeout :: nat

text \<open>
  What a call of the session returns: it raises, or it gives a response with a status code
  and a body; the body is \<open>None\<close> when \<^verbatim>\<open>response.json()\<close> cannot parse it.
\<close>

datatype http_reply =
    Raises exn
  | Response int "pyval option"

text \<open>
  The world one workflow cycle runs in: the reply to each request, and what
  \<^verbatim>\<open>socket.gethostbyname\<close> does for each host name (an address, or an exception).
\<close>

record world =
  http :: "request \<Rightarrow> http_reply"
  gethostbyname :: "string \<Rightarrow> exn + string"

datatype level = INFO | WARNING | ERROR | FATAL

text \<open>
  A log line is an f-string: literal text and formatted values, kept as the values they
  are formatted from.
\<close>

datatype piece = Lit string | Val pyval | Exc exn | Now

text \<open>
  What the program does to the outside, in order: a request sent, \<^verbatim>\<open>time.sleep\<close> called by
  the client, a name handed to the resolver, a line logged, and the wait of the scheduler
  for the time of its next event.
\<close>

datatype effect =
    Http request
  | Sleep int
  | Resolve string
  | Log level "piece list"
  | Wait int

text \<open>
  The requests sent, the names resolved and the waits of the scheduler, in order, among the
  effects of a run.
\<close>

fun requests_of :: "effect list \<Rightarrow> request list" where
  "requests_of [] = []"
| "requests_of (Http q # es) = q # requests_of es"
| "requests_of (e # es) = requests_of es"

fun resolves_of :: "effect list \<Rightarrow> string list" where
  "resolves_of [] = []"
| "resolves_of (Resolve n # es) = n # resolves_of es"
| "resolves_of (e # es) = resolves_of es"

fun waits_of :: "effect list \<Rightarrow> int list" where
  "waits_of [] = []"
| "waits_of (Wait d # es) = d # waits_of es"
| "waits_of (e # es) = waits_of es"

section \<open>The DNS client (cfdns.py)\<close>

record cloudflare_dns =
  cf_api_token :: string
  zone_id :: string
  record_name :: string

definition session_headers :: "cloudflare_dns \<Rightarrow> (string \<times> string) list" where
  "session_headers self =
     [(''Authorization'', ''Bearer '' @ cf_api_token self),
      (''Content-Type'', ''application/json'')]"

definition response_json :: "pyval option \<Rightarrow> exn + pyval" where
  "response_json body = (case body of None \<Rightarrow> Inl JSONDecodeError | Some v \<Rightarrow> Inr v)"

subsection \<open>get_my_ip\<close>

definition get_ip_request :: "cloudflare_dns \<Rightarrow> request" where
  "get_ip_request self =
     \<lparr>verb = GET, url = SpeedMeta, headers = session_headers self, params = [],
      json_body = None, timeout = 30\<rparr>"

text \<open>The body of the \<^verbatim>\<open>try\<close> block: the value returned from inside it, if any, and the lines logged.\<close>

definition get_my_ip_try :: "http_reply \<Rightarrow> exn + (pyval option \<times> effect list)" where
  "get_my_ip_try reply =
     (case reply of
        Raises e \<Rightarrow> Inl e
      | Response status body \<Rightarrow>
          if status = 200 then
            then_py (response_json body) (\<lambda>data.
            then_py (py_get data ''clientIp'' PNone) (\<lambda>ip.
            Inr (Some ip, [])))
          else Inr (None, [Log ERROR [Lit ''Failed to get IP: HTTP '', Val (PInt status)]]))"

definition get_my_ip :: "cloudflare_dns \<Rightarrow> world \<Rightarrow> pyval \<times> effect list" where
  "get_my_ip self w =
     (let q = get_ip_request self in
      case get_my_ip_try (http w q) of
        Inl e \<Rightarrow> (PNone, [Http q, Log ERROR [Lit ''Error getting IP: '', Exc e]])
      | Inr (Some ip, logs) \<Rightarrow> (ip, Http q # logs)
      | Inr (None, logs) \<Rightarrow> (PNone, Http q # logs))"

subsection \<open>The provider's envelope\<close>

text \<open>\<^verbatim>\<open>response.status_code == 200 and result.get("success")\<close>, as a condition.\<close>

definition envelope_ok :: "int \<Rightarrow> pyval \<Rightarrow> exn + bool" where
  "envelope_ok status result =
     (if status = 200 then then_py (py_get result ''success'' PNone) (\<lambda>s. Inr (truthy s))
      else Inr False)"

text \<open>\<^verbatim>\<open>result.get("errors", [{"message": "Unknown error"}])[0].get('message')\<close>\<close>

definition first_error_message :: "pyval \<Rightarrow> exn + pyval" where
  "first_error_message result =
     then_py (py_get result ''errors'' (PList [PDict [(''message'', PStr ''Unknown error'')]]))
       (\<lambda>error_messages.
     then_py (py_first error_messages) (\<lambda>first.
     py_get first ''message'' PNone))"

subsection \<open>find_dns_record_id\<close>

definition find_request :: "cloudflare_dns \<Rightarrow> request" where
  "find_request self =
     \<lparr>verb = GET, url = ZoneRecords (zone_id self), headers = session_headers self,
      params = [(''name'', record_name self)], json_body = None, timeout = 30\<rparr>"

text \<open>
  The \<^verbatim>\<open>for\<close> loop over the records: \<open>Some i\<close> when the loop returns the id \<open>i\<close>,
  \<open>None\<close> when it runs to its end.
\<close>

fun scan_records :: "string \<Rightarrow> pyval list \<Rightarrow> exn + pyval option" where
  "scan_records name [] = Inr None"
| "scan_records name (record # rest) =
     then_py (py_get record ''type'' PNone) (\<lambda>t.
       if t = PStr ''A'' then
         then_py (py_get record ''name'' PNone) (\<lambda>n.
           if n = PStr name then
             then_py (py_get record ''id'' PNone) (\<lambda>record_id. Inr (Some record_id))
           else scan_records name rest)
       else scan_records name rest)"

definition find_dns_record_id_try :: "cloudflare_dns \<Rightarrow> http_reply \<Rightarrow> exn + (pyval \<times> effect list)" where
  "find_dns_record_id_try self reply =
     (case reply of
        Raises e \<Rightarrow> Inl e
      | Response status body \<Rightarrow>
          then_py (response_json body) (\<lambda>result.
          then_py (envelope_ok status result) (\<lambda>ok.
          if ok then
            then_py (py_get result ''result'' (PList [])) (\<lambda>records.
            if \<not> truthy records then
              Inr (PNone, [Log WARNING [Lit ''No DNS records found with name '',
                                        Lit (record_name self)]])
            else
              then_py (py_iter records) (\<lambda>items.
              then_py (scan_records (record_name self) items) (\<lambda>found.
              case found of
                Some record_id \<Rightarrow>
                  Inr (record_id, [Log INFO [Lit ''Found DNS record ID for '',
                                            Lit (record_name self), Lit '': '', Val record_id]])
              | None \<Rightarrow>
                  Inr (PNone, [Log WARNING [Lit ''No matching A record found for '',
                                            Lit (record_name self)]]))))
          else
            then_py (first_error_message result) (\<lambda>msg.
            Inr (PNone, [Log ERROR [Lit ''Failed to list DNS records: '', Val msg]])))))"

definition find_dns_record_id :: "cloudflare_dns \<Rightarrow> world \<Rightarrow> pyval \<times> effect list" where
  "find_dns_record_id self w =
     (let q = find_request self in
      case find_dns_record_id_try self (http w q) of
        Inl e \<Rightarrow> (PNone, [Http q, Log ERROR [Lit ''Error finding DNS record: '', Exc e]])
      | Inr (v, logs) \<Rightarrow> (v, Http q # logs))"

subsection \<open>update_dns_record\<close>

definition record_data :: "cloudflare_dns \<Rightarrow> pyval \<Rightarrow> pyval" where
  "record_data self ip_address =
     PDict [(''type'', PStr ''A''), (''name'', PStr (record_name self)),
            (''content'', ip_address), (''ttl'', PInt 1), (''proxied'', PBool False)]"

definition update_request :: "cloudflare_dns \<Rightarrow> pyval \<Rightarrow> pyval \<Rightarrow> request" where
  "update_request self ip_address record_id =
     \<lparr>verb = PUT, url = ZoneRecord (zone_id self) record_id, headers = session_headers self,
      params = [], json_body = Some (record_data self ip_address), timeout = 30\<rparr>"

definition create_request :: "cloudflare_dns \<Rightarrow> pyval \<Rightarrow> request" where
  "create_request self ip_address =
     \<lparr>verb = POST, url = ZoneRecords (zone_id self), headers = session_headers self,
      params = [], json_body = Some (record_data self ip_address), timeout = 30\<rparr>"

text \<open>
  What follows the request in either branch: parse, test the envelope, log. The branches
  differ in the two log lines only.
\<close>

definition upsert_try :: "piece list \<Rightarrow> string \<Rightarrow> http_reply \<Rightarrow> exn + (bool \<times> effect list)" where
  "upsert_try good bad reply =
     (case reply of
        Raises e \<Rightarrow> Inl e
      | Response status body \<Rightarrow>
          then_py (response_json body) (\<lambda>result.
          then_py (envelope_ok status result) (\<lambda>ok.
          if ok then Inr (True, [Log INFO good])
          else
            then_py (first_error_message result) (\<lambda>msg.
            Inr (False, [Log ERROR [Lit bad, Val msg]])))))"

definition update_dns_record ::
    "cloudflare_dns \<Rightarrow> pyval \<Rightarrow> pyval \<Rightarrow> world \<Rightarrow> bool \<times> effect list" where
  "update_dns_record self ip_address record_id w =
     (let q = (if truthy record_id then update_request self ip_address record_id
               else create_request self ip_address);
          attempt =
            (if truthy record_id then
               upsert_try [Lit ''Successfully updated DNS record to '', Val ip_address]
                 ''Failed to update DNS record: '' (http w q)
             else
               upsert_try [Lit ''Successfully created new DNS record for '',
                           Lit (record_name self), Lit '' with IP '', Val ip_address]
                 ''Failed to create DNS record: '' (http w q))
      in case attempt of
           Inl e \<Rightarrow> (False, [Http q, Log ERROR [Lit ''Error updating DNS record: '', Exc e]])
         | Inr (b, logs) \<Rightarrow> (b, Http q # logs))"

subsection \<open>verify_dns_update\<close>

text \<open>
  Only \<^verbatim>\<open>socket.gaierror\<close> is caught here; any other exception of the resolver leaves the
  method, after the sleep and the resolution attempt.
\<close>

definition verify_dns_update ::
    "cloudflare_dns \<Rightarrow> pyval \<Rightarrow> world \<Rightarrow> (exn + bool) \<times> effect list" where
  "verify_dns_update self expected_ip w =
     (let name = record_name self in
      case gethostbyname w name of
        Inr resolved_ip \<Rightarrow>
          if PStr resolved_ip = expected_ip then
            (Inr True, [Sleep 5, Resolve name,
               Log INFO [Lit ''DNS verification successful: '', Lit name,
                         Lit '' resolves to '', Lit resolved_ip]])
          else
            (Inr False, [Sleep 5, Resolve name,
               Log WARNING [Lit ''DNS verification failed: '', Lit name, Lit '' resolves to '',
                            Lit resolved_ip, Lit '', expected '', Val expected_ip]])
      | Inl e \<Rightarrow>
          if e = Gaierror then
            (Inr False, [Sleep 5, Resolve name,
               Log ERROR [Lit ''DNS resolution failed for '', Lit name]])
          else (Inl e, [Sleep 5, Resolve name]))"

section \<open>The workflow and the scheduler (cfupdater.py)\<close>

subsection \<open>get_interval_seconds\<close>

definition get_interval_seconds :: "string \<Rightarrow> int" where
  "get_interval_seconds mode =
     (case map_of [(''daily'', 24 * 60 * 60), (''hourly'', 60 * 60), (''min'', 60)] mode of
        Some n \<Rightarrow> n
      | None \<Rightarrow> 0)"

subsection \<open>main: one workflow cycle\<close>

text \<open>
  The result is what the call gives its caller (\<^verbatim>\<open>None\<close> on every path that returns, or
  the exception that leaves it) and the effects of the cycle in order. Entering and leaving the
  \<^verbatim>\<open>with\<close> block opens and closes the session and has no effect of its own here.
\<close>

definition main :: "string \<Rightarrow> string \<Rightarrow> string \<Rightarrow> world \<Rightarrow> (exn + pyval) \<times> effect list" where
  "main api_key zone name w =
     (let updater = \<lparr>cf_api_token = api_key, zone_id = zone, record_name = name\<rparr>;
          start = [Log INFO [Lit ''['', Now, Lit ''] Running scheduled CF update...'']];
          (ip_address, e1) = get_my_ip updater w
      in if \<not> truthy ip_address then
           (Inr PNone,
            start @ e1 @ [Log ERROR [Lit ''Failed to get current IP address. Exiting.'']])
         else
           let (record_id, e2) = find_dns_record_id updater w;
               note =
                 (if truthy record_id then
                    Log INFO [Lit ''Updating existing DNS record with ID: '', Val record_id]
                  else
                    Log INFO [Lit ''No existing record found. Creating a new DNS record for '',
                              Lit name]);
               (success, e3) =
                 (if truthy record_id then update_dns_record updater ip_address record_id w
                  else update_dns_record updater ip_address PNone w);
               before = start @ e1 @ [Log INFO [Lit ''Current IP address: '', Val ip_address]]
                          @ e2 @ [note] @ e3
           in if success then
                (case verify_dns_update updater ip_address w of
                   (Inl e, e4) \<Rightarrow> (Inl e, before @ e4)
                 | (Inr verified, e4) \<Rightarrow> (Inr PNone, before @ e4))
              else (Inr PNone, before))"

subsection \<open>run: the scheduler\<close>

text \<open>
  What an observer of the process sees: how often \<^verbatim>\<open>main\<close> was called, the effects so far,
  and the exception that ended the process, if one did.
\<close>

record observation =
  invocations :: nat
  effects :: "effect list"
  raised :: "exn option"

text \<open>
  The state of the closure: \<^verbatim>\<open>runs_left\<close>, and the queue of the \<^verbatim>\<open>sched.scheduler\<close>. The
  queue never holds more than one event (an event is entered only before the loop starts and
  by the action of the event just taken out), so it is the delay of that event, if any.
\<close>

record sched = observation +
  runs_left :: int
  pending :: "int option"

definition observe :: "sched \<Rightarrow> observation" where
  "observe st = \<lparr>invocations = invocations st, effects = effects st, raised = raised st\<rparr>"

definition schedule_next :: "string \<Rightarrow> int \<Rightarrow> sched \<Rightarrow> sched" where
  "schedule_next mode num_runs st =
     (if num_runs \<noteq> 0 \<and> runs_left st \<le> 0 then st
      else st\<lparr>pending := Some (get_interval_seconds mode)\<rparr>)"

text \<open>The n-th call of \<^verbatim>\<open>main\<close> (counting from 0) meets the world \<open>worlds n\<close>.\<close>

definition run_and_reschedule ::
    "string \<times> string \<times> string \<Rightarrow> (nat \<Rightarrow> world) \<Rightarrow> string \<Rightarrow> int \<Rightarrow> sched \<Rightarrow> sched" where
  "run_and_reschedule secrets worlds mode num_runs st =
     (let (api_key, zone, name) = secrets;
          (res, es) = main api_key zone name (worlds (invocations st));
          st1 = st\<lparr>invocations := Suc (invocations st), effects := effects st @ es\<rparr>
      in (case res of
            Inl e \<Rightarrow> st1\<lparr>raised := Some e\<rparr>
          | Inr v \<Rightarrow>
              if num_runs = 0 \<or> runs_left st1 > 0 then
                schedule_next mode num_runs (st1\<lparr>runs_left := runs_left st1 - 1\<rparr>)
              else st1))"

text \<open>
  One turn of the loop of \<^verbatim>\<open>scheduler.run()\<close>: take the event out of the queue, wait for its
  time (\<open>Wait d\<close> for an event entered with delay \<open>d\<close>), call its action.
\<close>

definition scheduler_step ::
    "string \<times> string \<times> string \<Rightarrow> (nat \<Rightarrow> world) \<Rightarrow> string \<Rightarrow> int \<Rightarrow> sched \<Rightarrow> sched" where
  "scheduler_step secrets worlds mode num_runs st =
     (case pending st of
        None \<Rightarrow> st
      | Some d \<Rightarrow>
          run_and_reschedule secrets worlds mode num_runs
            (st\<lparr>pending := None, effects := effects st @ [Wait d]\<rparr>))"

text \<open>The loop is over when the queue is empty or an exception has left the action.\<close>

definition idle :: "sched \<Rightarrow> bool" where
  "idle st = (case raised st of Some e \<Rightarrow> True | None \<Rightarrow> pending st = None)"

text \<open>
  The loop may run forever, so it is run for at most \<open>fuel\<close> turns: \<open>Returned\<close> when it has
  ended within them, \<open>Running\<close> with the state reached when it has not.
\<close>

datatype 'a progress = Returned 'a | Running 'a



fun scheduler_run ::
    "nat \<Rightarrow> string \<times> string \<times> string \<Rightarrow> (nat \<Rightarrow> world) \<Rightarrow> string \<Rightarrow> int \<Rightarrow> sched
      \<Rightarrow> observation progress" where
  "scheduler_run 0 secrets worlds mode num_runs st =
     (if idle st then Returned (observe st) else Running (observe st))"
| "scheduler_run (Suc fuel) secrets worlds mode num_runs st =
     (if idle st then Returned (observe st)
      else scheduler_run fuel secrets worlds mode num_runs
             (scheduler_step secrets worlds mode num_runs st))"

text \<open>
  \<open>got\<close> is what \<^verbatim>\<open>asyncio.run(get_secrets())\<close> gives: the three secrets, or an exception.
  \<open>mode\<close> is \<^verbatim>\<open>None\<close> or a string, \<open>num_runs\<close> an integer.
\<close>

definition run ::
    "nat \<Rightarrow> exn + string \<times> string \<times> string \<Rightarrow> (nat \<Rightarrow> world) \<Rightarrow> string option \<Rightarrow> int
      \<Rightarrow> observation progress" where
  "run fuel got worlds mode num_runs =
     (case got of
        Inl e \<Rightarrow>
          Returned \<lparr>invocations = 0,
                    effects = [Log FATAL [Lit ''Getting secrets raised Exception '', Exc e]],
                    raised = None\<rparr>
      | Inr (api_key, zone, name) \<Rightarrow>
          if api_key = [] \<or> zone = [] \<or> name = [] then
            Returned \<lparr>invocations = 0,
                      effects = [Log FATAL
                        [Lit ''Please set CF_API_TOKEN, CF_ZONE_ID, and CF_RECORD_NAME'']],
                      raised = None\<rparr>
          else
            (case main api_key zone name (worlds 0) of
               (Inl e, es) \<Rightarrow> Returned \<lparr>invocations = 1, effects = es, raised = Some e\<rparr>
             | (Inr v, es) \<Rightarrow>
                 (case mode of
                    None \<Rightarrow> Returned \<lparr>invocations = 1, effects = es, raised = None\<rparr>
                  | Some m \<Rightarrow>
                      if m = [] then Returned \<lparr>invocations = 1, effects = es, raised = None\<rparr>
                      else
                        scheduler_run fuel (api_key, zone, name) worlds m num_runs
                          (schedule_next m num_runs
                             \<lparr>invocations = 1, effects = es, raised = None,
                              runs_left = num_runs - 1, pending = None\<rparr>))))"

section \<open>The specification's words, as definitions\<close>

text \<open>
  The provider reports success: the response has status 200 and its body is an object whose
  \<^verbatim>\<open>success\<close> field is true.
\<close>

fun reported_success :: "http_reply \<Rightarrow> bool" where
  "reported_success (Response status (Some (PDict kvs))) =
     (status = 200 \<and> truthy (dict_get kvs ''success'' PNone))"
| "reported_success _ = False"

text \<open>
  The provider's first error message, when the response carries one: the \<^verbatim>\<open>message\<close> of
  the first entry of \<^verbatim>\<open>errors\<close>.
\<close>

fun provider_first_error :: "http_reply \<Rightarrow> pyval option" where
  "provider_first_error (Response status (Some (PDict kvs))) =
     (case map_of (rev kvs) ''errors'' of
        Some (PList (PDict e # rest)) \<Rightarrow> map_of (rev e) ''message''
      | _ \<Rightarrow> None)"
| "provider_first_error _ = None"

text \<open>The one request that \<^verbatim>\<open>update_dns_record\<close> sends for a given record id.\<close>

definition upsert_request :: "cloudflare_dns \<Rightarrow> pyval \<Rightarrow> pyval \<Rightarrow> request" where
  "upsert_request self ip_address record_id =
     (if truthy record_id then update_request self ip_address record_id
      else create_request self ip_address)"

text \<open>An entry of the record list that is an object.\<close>

fun is_dict :: "pyval \<Rightarrow> bool" where
  "is_dict (PDict kvs) = True"
| "is_dict _ = False"

text \<open>An entry whose type is "A" and whose name is exactly the configured name.\<close>

fun a_record_named :: "string \<Rightarrow> pyval \<Rightarrow> bool" where
  "a_record_named name (PDict kvs) =
     (dict_get kvs ''type'' PNone = PStr ''A'' \<and> dict_get kvs ''name'' PNone = PStr name)"
| "a_record_named name _ = False"

section \<open>Concrete inputs\<close>

definition host_dns :: cloudflare_dns where
  "host_dns = \<lparr>cf_api_token = ''token'', zone_id = ''zone1'', record_name = ''host.example.com''\<rparr>"

text \<open>A provider that turns every request down with an authentication error.\<close>

definition w_put_denied :: world where
  "w_put_denied =
     \<lparr>http = (\<lambda>q. Response 403
               (Some (PDict [(''success'', PBool False),
                             (''errors'', PList [PDict [(''code'', PInt 10000),
                                                        (''message'', PStr ''Authentication error'')]])]))),
      gethostbyname = (\<lambda>n. Inl Gaierror)\<rparr>"

text \<open>
  A provider with four records under the name, the third of which is the first A record of
  that name; it accepts every upsert. The resolver still answers with an old address.
\<close>

definition listing_records :: "pyval list" where
  "listing_records =
     [PDict [(''id'', PStr ''r0''), (''type'', PStr ''CNAME''), (''name'', PStr ''host.example.com'')],
      PDict [(''id'', PStr ''r1''), (''type'', PStr ''A''), (''name'', PStr ''other.example.com'')],
      PDict [(''id'', PStr ''r2''), (''type'', PStr ''A''), (''name'', PStr ''host.example.com'')],
      PDict [(''id'', PStr ''r3''), (''type'', PStr ''A''), (''name'', PStr ''host.example.com'')]]"

definition listing_body :: "(string \<times> pyval) list" where
  "listing_body = [(''success'', PBool True), (''errors'', PList []), (''result'', PList listing_records)]"

definition w_listing :: world where
  "w_listing =
     \<lparr>http = (\<lambda>q. case url q of
          SpeedMeta \<Rightarrow> Response 200 (Some (PDict [(''clientIp'', PStr ''203.0.113.7'')]))
        | ZoneRecords z \<Rightarrow>
            (case verb q of
               GET \<Rightarrow> Response 200 (Some (PDict listing_body))
             | _ \<Rightarrow> Response 200 (Some (PDict [(''success'', PBool True)])))
        | ZoneRecord z i \<Rightarrow> Response 200 (Some (PDict [(''success'', PBool True)]))),
      gethostbyname = (\<lambda>n. Inr ''198.51.100.1'')\<rparr>"

text \<open>The same provider when the listing fails with a server error.\<close>

definition w_lookup_down :: world where
  "w_lookup_down =
     \<lparr>http = (\<lambda>q. case url q of
          SpeedMeta \<Rightarrow> Response 200 (Some (PDict [(''clientIp'', PStr ''203.0.113.7'')]))
        | ZoneRecords z \<Rightarrow>
            (case verb q of
               GET \<Rightarrow> Response 500
                       (Some (PDict [(''success'', PBool False),
                                     (''errors'', PList [PDict [(''message'', PStr ''Internal error'')]])]))
             | _ \<Rightarrow> Response 200 (Some (PDict [(''success'', PBool True)])))
        | ZoneRecord z i \<Rightarrow> Response 200 (Some (PDict [(''success'', PBool True)]))),
      gethostbyname = (\<lambda>n. Inr ''203.0.113.7'')\<rparr>"

text \<open>The same provider when it turns the upsert down.\<close>

definition w_upsert_denied :: world where
  "w_upsert_denied =
     \<lparr>http = (\<lambda>q. case verb q of
          GET \<Rightarrow> http w_listing q
        | _ \<Rightarrow> http w_put_denied q),
      gethostbyname = (\<lambda>n. Inr ''198.51.100.1'')\<rparr>"

text \<open>
  A record name with an empty label, accepted by the provider: the resolver call fails while
  encoding the name, with \<^verbatim>\<open>UnicodeError\<close>, before any lookup.
\<close>

definition w_idna_error :: world where
  "w_idna_error = \<lparr>http = http w_listing, gethostbyname = (\<lambda>n. Inl UnicodeError)\<rparr>"

text \<open>Credentials whose record name has an empty label.\<close>

definition bad_name_dns :: cloudflare_dns where
  "bad_name_dns = \<lparr>cf_api_token = ''token'', zone_id = ''zone1'', record_name = ''host..example.com''\<rparr>"

text \<open>
  The effects of the calls of \<^verbatim>\<open>main\<close> numbered \<open>i\<close> to \<open>j - 1\<close>, each after a wait of
  \<open>d\<close> seconds.
\<close>

definition later_cycles ::
    "string \<Rightarrow> string \<Rightarrow> string \<Rightarrow> (nat \<Rightarrow> world) \<Rightarrow> int \<Rightarrow> nat \<Rightarrow> nat \<Rightarrow> effect list" where
  "later_cycles k z n worlds d i j =
     concat (map (\<lambda>c. Wait d # snd (main k z n (worlds c))) [i..<j])"

text \<open>
  The worlds of a run in which the provider turns the upsert of the first cycle down and
  accepts the upsert of every later one, the record name being one that the resolver call
  cannot encode.
\<close>

definition denied_then_idna_error :: "nat \<Rightarrow> world" where
  "denied_then_idna_error i = (if i = 0 then w_upsert_denied else w_idna_error)"

section \<open>The upsert\<close>

lemma reported_success_envelope:
  "reported_success (Response status (Some result)) \<Longrightarrow> envelope_ok status result = Inr True"
  by (cases result) (simp_all add: envelope_ok_def then_py_def)

lemma not_reported_success_envelope:
  "\<not> reported_success (Response status (Some result)) \<Longrightarrow> envelope_ok status result \<noteq> Inr True"
  by (cases result) (auto simp add: envelope_ok_def then_py_def)

lemma upsert_try_True:
  "(\<exists>logs. upsert_try good bad reply = Inr (True, logs)) = reported_success reply"
proof (cases reply)
  case (Raises e)
  then show ?thesis by (simp add: upsert_try_def)
next
  case (Response status body)
  show ?thesis
  proof (cases body)
    case None
    with Response show ?thesis by (simp add: upsert_try_def response_json_def then_py_def)
  next
    case (Some result)
    show ?thesis
    proof (cases "reported_success reply")
      case True
      with Response Some show ?thesis
        by (simp add: upsert_try_def response_json_def then_py_def reported_success_envelope)
    next
      case False
      with Response Some have "envelope_ok status result \<noteq> Inr True"
        by (simp add: not_reported_success_envelope)
      with False Response Some show ?thesis
        by (auto simp add: upsert_try_def response_json_def then_py_def split: sum.splits)
    qed
  qed
qed

lemma upsert_try_message:
  assumes "\<not> reported_success reply" and "provider_first_error reply = Some msg"
  shows "upsert_try good bad reply = Inr (False, [Log ERROR [Lit bad, Val msg]])"
proof -
  from assms(2) obtain status kvs where r: "reply = Response status (Some (PDict kvs))"
    by (cases reply rule: provider_first_error.cases) simp_all
  from assms(2) r obtain e rest where
    e: "map_of (rev kvs) ''errors'' = Some (PList (PDict e # rest))" and m: "map_of (rev e) ''message'' = Some msg"
    by (auto split: option.splits pyval.splits list.splits)
  from assms(1) r have "envelope_ok status (PDict kvs) = Inr False"
    by (auto simp add: envelope_ok_def then_py_def)
  moreover from e m have "first_error_message (PDict kvs) = Inr msg"
    by (simp add: first_error_message_def then_py_def dict_get_def)
  ultimately show ?thesis using r
    by (simp add: upsert_try_def response_json_def then_py_def)
qed

lemma upsert_handler_result:
  "fst (case upsert_try good bad reply of
          Inl e \<Rightarrow> (False, X e)
        | Inr (b, logs) \<Rightarrow> (b, Y logs)) = reported_success reply"
proof (cases "upsert_try good bad reply")
  case (Inl e)
  with upsert_try_True [of good bad reply] show ?thesis by simp
next
  case (Inr p)
  obtain b logs where p: "p = (b, logs)" by (cases p)
  with Inr upsert_try_True [of good bad reply] show ?thesis by (cases b) auto
qed

lemma update_dns_record_result:
  "fst (update_dns_record self ip rid w) = reported_success (http w (upsert_request self ip rid))"
  unfolding update_dns_record_def Let_def upsert_request_def [symmetric]
  by (simp add: upsert_handler_result)

lemma update_dns_record_requests:
  "requests_of (snd (update_dns_record self ip rid w)) = [upsert_request self ip rid]"
  unfolding update_dns_record_def Let_def upsert_request_def [symmetric]
  by (auto simp add: upsert_try_def then_py_def split: sum.splits http_reply.splits if_splits)

lemma update_dns_record_failure_log:
  assumes "\<not> reported_success (http w (upsert_request self ip rid))"
    and "provider_first_error (http w (upsert_request self ip rid)) = Some msg"
  shows "update_dns_record self ip rid w =
           (False, [Http (upsert_request self ip rid),
                    Log ERROR [Lit (if truthy rid then ''Failed to update DNS record: ''
                                    else ''Failed to create DNS record: ''), Val msg]])"
  unfolding update_dns_record_def Let_def upsert_request_def [symmetric]
  by (simp add: upsert_try_message [OF assms])

text \<open>
  Claim C6. Without a record id \<^verbatim>\<open>update_dns_record\<close> sends one request, a POST to the
  zone's record collection; with a (true) record id it sends one request, a PUT to the address
  of that record. The two requests differ in method and address only, and both carry the
  payload \<^verbatim>\<open>{type: "A", name: record_name, content: ip, ttl: 1, proxied: false}\<close>. The
  method returns \<^verbatim>\<open>True\<close> exactly when the response has status 200 and the provider reports
  success; when it does not and the provider gives a first error message, the method returns
  \<^verbatim>\<open>False\<close> and the error line it logs carries that message.
\<close>

theorem update_dns_record_contract:
  "requests_of (snd (update_dns_record self ip PNone w)) = [create_request self ip]
   \<and> (truthy rid \<longrightarrow>
        requests_of (snd (update_dns_record self ip rid w)) = [update_request self ip rid])
   \<and> verb (create_request self ip) = POST
   \<and> url (create_request self ip) = ZoneRecords (zone_id self)
   \<and> verb (update_request self ip rid) = PUT
   \<and> url (update_request self ip rid) = ZoneRecord (zone_id self) rid
   \<and> (update_request self ip rid)\<lparr>verb := POST, url := ZoneRecords (zone_id self)\<rparr>
         = create_request self ip
   \<and> json_body (update_request self ip rid) =
         Some (PDict [(''type'', PStr ''A''), (''name'', PStr (record_name self)),
                      (''content'', ip), (''ttl'', PInt 1), (''proxied'', PBool False)])
   \<and> json_body (create_request self ip) = json_body (update_request self ip rid)
   \<and> fst (update_dns_record self ip rid w)
         = reported_success (http w (upsert_request self ip rid))
   \<and> (\<not> reported_success (http w (upsert_request self ip rid))
          \<and> provider_first_error (http w (upsert_request self ip rid)) = Some msg \<longrightarrow>
        update_dns_record self ip rid w =
          (False, [Http (upsert_request self ip rid),
                   Log ERROR [Lit (if truthy rid then ''Failed to update DNS record: ''
                                   else ''Failed to create DNS record: ''), Val msg]]))"
proof -
  have a: "requests_of (snd (update_dns_record self ip PNone w)) = [create_request self ip]"
    by (simp add: update_dns_record_requests upsert_request_def)
  have b: "truthy rid \<longrightarrow>
        requests_of (snd (update_dns_record self ip rid w)) = [update_request self ip rid]"
    by (simp add: update_dns_record_requests upsert_request_def)
  have c: "(update_request self ip rid)\<lparr>verb := POST, url := ZoneRecords (zone_id self)\<rparr>
         = create_request self ip"
    by (simp add: update_request_def create_request_def)
  have d: "json_body (update_request self ip rid) =
         Some (PDict [(''type'', PStr ''A''), (''name'', PStr (record_name self)),
                      (''content'', ip), (''ttl'', PInt 1), (''proxied'', PBool False)])"
    by (simp add: update_request_def record_data_def)
  have e: "json_body (create_request self ip) = json_body (update_request self ip rid)"
    by (simp add: update_request_def create_request_def)
  have f: "verb (create_request self ip) = POST"
     "url (create_request self ip) = ZoneRecords (zone_id self)"
     "verb (update_request self ip rid) = PUT"
     "url (update_request self ip rid) = ZoneRecord (zone_id self) rid"
    by (simp_all add: update_request_def create_request_def)
  note g = update_dns_record_result [of self ip rid w]
  have h: "\<not> reported_success (http w (upsert_request self ip rid))
          \<and> provider_first_error (http w (upsert_request self ip rid)) = Some msg \<longrightarrow>
        update_dns_record self ip rid w =
          (False, [Http (upsert_request self ip rid),
                   Log ERROR [Lit (if truthy rid then ''Failed to update DNS record: ''
                                   else ''Failed to create DNS record: ''), Val msg]])"
    using update_dns_record_failure_log [of w self ip rid msg] by blast
  from a b c d e f g h show ?thesis by blast
qed

theorem update_dns_record_contract_witness:
  "truthy (PStr ''rec42'')
   \<and> requests_of (snd (update_dns_record host_dns (PStr ''203.0.113.7'') (PStr ''rec42'') w_put_denied))
        = [update_request host_dns (PStr ''203.0.113.7'') (PStr ''rec42'')]
   \<and> \<not> reported_success (http w_put_denied (upsert_request host_dns (PStr ''203.0.113.7'') (PStr ''rec42'')))
   \<and> provider_first_error (http w_put_denied (upsert_request host_dns (PStr ''203.0.113.7'') (PStr ''rec42'')))
        = Some (PStr ''Authentication error'')
   \<and> update_dns_record host_dns (PStr ''203.0.113.7'') (PStr ''rec42'') w_put_denied =
          (False, [Http (update_request host_dns (PStr ''203.0.113.7'') (PStr ''rec42'')),
                   Log ERROR [Lit ''Failed to update DNS record: '', Val (PStr ''Authentication error'')]])"
proof -
  have t: "truthy (PStr ''rec42'')" by simp
  have n: "\<not> reported_success (http w_put_denied (upsert_request host_dns (PStr ''203.0.113.7'') (PStr ''rec42'')))"
    by (simp add: w_put_denied_def dict_get_def)
  have m: "provider_first_error (http w_put_denied (upsert_request host_dns (PStr ''203.0.113.7'') (PStr ''rec42'')))
        = Some (PStr ''Authentication error'')"
    by (simp add: w_put_denied_def)
  from t n m
    update_dns_record_contract [of host_dns "PStr ''203.0.113.7''" w_put_denied "PStr ''rec42''"
       "PStr ''Authentication error''"]
  show ?thesis by (simp add: upsert_request_def)
qed

text \<open>
  Claim C9. The record id is tested for truth, not for presence: with the empty string as
  record id, \<^verbatim>\<open>update_dns_record\<close> sends the create request (a POST to the collection), and
  does in all what it does without a record id.
\<close>

theorem update_dns_record_empty_id:
  "requests_of (snd (update_dns_record self ip (PStr []) w)) = [create_request self ip]
   \<and> verb (create_request self ip) = POST
   \<and> url (create_request self ip) = ZoneRecords (zone_id self)
   \<and> update_dns_record self ip (PStr []) w = update_dns_record self ip PNone w"
proof -
  have "requests_of (snd (update_dns_record self ip (PStr []) w)) = [create_request self ip]"
    by (simp add: update_dns_record_requests upsert_request_def)
  moreover have "update_dns_record self ip (PStr []) w = update_dns_record self ip PNone w"
    by (simp add: update_dns_record_def)
  ultimately show ?thesis by (simp add: create_request_def)
qed

section \<open>The interval table\<close>

text \<open>
  Claim C2, as stated, at the mode "minutely": the table has no such key, so the interval is
  0 seconds and not 60.
\<close>

theorem get_interval_seconds_minutely:
  "get_interval_seconds ''minutely'' = 0 \<and> get_interval_seconds ''minutely'' \<noteq> 60"
  by (simp add: get_interval_seconds_def)

text \<open>
  Claim C2, amended. \<^verbatim>\<open>get_interval_seconds\<close> maps "daily" to 86400 seconds, "hourly" to
  3600 seconds and "min" to 60 seconds, and every other mode to 0 seconds.
\<close>

theorem get_interval_seconds_table:
  "get_interval_seconds ''daily'' = 86400
   \<and> get_interval_seconds ''hourly'' = 3600
   \<and> get_interval_seconds ''min'' = 60
   \<and> (mode \<notin> {''daily'', ''hourly'', ''min''} \<longrightarrow> get_interval_seconds mode = 0)"
  by (simp add: get_interval_seconds_def)

theorem get_interval_seconds_table_witness:
  "''weekly'' \<notin> {''daily'', ''hourly'', ''min''} \<and> get_interval_seconds ''weekly'' = 0"
  using get_interval_seconds_table [of "''weekly''"] by simp

section \<open>The record lookup\<close>

lemma scan_records_no_match:
  "\<forall>r\<in>set rs. \<not> a_record_named name r \<Longrightarrow>
     scan_records name rs = Inr None \<or> scan_records name rs = Inl AttributeError"
proof (induction rs)
  case Nil
  then show ?case by simp
next
  case (Cons r rs)
  then show ?case
    by (cases r) (auto simp add: then_py_def)
qed

lemma scan_records_first_match:
  assumes "\<forall>p\<in>set pre. is_dict p \<and> \<not> a_record_named name p"
    and "a_record_named name (PDict kvs)"
  shows "scan_records name (pre @ PDict kvs # post) = Inr (Some (dict_get kvs ''id'' PNone))"
  using assms(1)
proof (induction pre)
  case Nil
  with assms(2) show ?case by (simp add: then_py_def)
next
  case (Cons p pre)
  then show ?case
    by (cases p) (auto simp add: then_py_def)
qed

lemma find_dns_record_id_listing:
  assumes "http w (find_request self) = Response 200 (Some (PDict body))"
    and "truthy (dict_get body ''success'' PNone)"
    and "dict_get body ''result'' (PList []) = PList records"
  shows "fst (find_dns_record_id self w) =
           (case scan_records (record_name self) records of
              Inr (Some record_id) \<Rightarrow> record_id
            | _ \<Rightarrow> PNone)"
  using assms
  by (cases records)
     (auto simp add: find_dns_record_id_def find_dns_record_id_try_def Let_def then_py_def
        response_json_def envelope_ok_def split: sum.splits option.splits)

text \<open>
  Claim C7. On a successful listing, \<^verbatim>\<open>find_dns_record_id\<close> returns \<^verbatim>\<open>None\<close> when the list of
  records is empty, and when no record in it has type "A" and exactly the configured name.
  When the list holds several records, it returns the \<^verbatim>\<open>id\<close> of the first one that has type
  "A" and exactly the configured name, in the order of the list, whatever follows it.
\<close>

theorem find_dns_record_id_first_match:
  assumes "http w (find_request self) = Response 200 (Some (PDict body))"
    and "truthy (dict_get body ''success'' PNone)"
    and "dict_get body ''result'' (PList []) = PList records"
  shows "(records = [] \<longrightarrow> fst (find_dns_record_id self w) = PNone)
       \<and> ((\<forall>r\<in>set records. \<not> a_record_named (record_name self) r) \<longrightarrow>
            fst (find_dns_record_id self w) = PNone)
       \<and> (\<forall>pre kvs post.
            records = pre @ PDict kvs # post
            \<and> (\<forall>p\<in>set pre. is_dict p \<and> \<not> a_record_named (record_name self) p)
            \<and> a_record_named (record_name self) (PDict kvs) \<longrightarrow>
            fst (find_dns_record_id self w) = dict_get kvs ''id'' PNone)"
proof -
  note l = find_dns_record_id_listing [OF assms]
  have a: "records = [] \<longrightarrow> fst (find_dns_record_id self w) = PNone"
    using l by simp
  have b: "(\<forall>r\<in>set records. \<not> a_record_named (record_name self) r) \<longrightarrow>
            fst (find_dns_record_id self w) = PNone"
  proof
    assume "\<forall>r\<in>set records. \<not> a_record_named (record_name self) r"
    from scan_records_no_match [OF this] l show "fst (find_dns_record_id self w) = PNone"
      by auto
  qed
  have c: "\<forall>pre kvs post.
            records = pre @ PDict kvs # post
            \<and> (\<forall>p\<in>set pre. is_dict p \<and> \<not> a_record_named (record_name self) p)
            \<and> a_record_named (record_name self) (PDict kvs) \<longrightarrow>
            fst (find_dns_record_id self w) = dict_get kvs ''id'' PNone"
  proof (intro allI impI)
    fix pre kvs post
    assume h: "records = pre @ PDict kvs # post
            \<and> (\<forall>p\<in>set pre. is_dict p \<and> \<not> a_record_named (record_name self) p)
            \<and> a_record_named (record_name self) (PDict kvs)"
    then have "scan_records (record_name self) records = Inr (Some (dict_get kvs ''id'' PNone))"
      using scan_records_first_match [of pre "record_name self" kvs post] by simp
    with l show "fst (find_dns_record_id self w) = dict_get kvs ''id'' PNone" by simp
  qed
  from a b c show ?thesis by blast
qed

theorem find_dns_record_id_first_match_witness:
  "http w_listing (find_request host_dns) = Response 200 (Some (PDict listing_body))
   \<and> truthy (dict_get listing_body ''success'' PNone)
   \<and> dict_get listing_body ''result'' (PList []) = PList listing_records
   \<and> fst (find_dns_record_id host_dns w_listing) = PStr ''r2''
   \<and> fst (find_dns_record_id (host_dns\<lparr>record_name := ''absent.example.com''\<rparr>) w_listing) = PNone"
proof -
  let ?other = "host_dns\<lparr>record_name := ''absent.example.com''\<rparr>"
  have h1: "http w_listing (find_request host_dns) = Response 200 (Some (PDict listing_body))"
    by (simp add: w_listing_def find_request_def)
  have h1': "http w_listing (find_request ?other) = Response 200 (Some (PDict listing_body))"
    by (simp add: w_listing_def find_request_def)
  have h2: "truthy (dict_get listing_body ''success'' PNone)"
    by (simp add: listing_body_def dict_get_def)
  have h3: "dict_get listing_body ''result'' (PList []) = PList listing_records"
    by (simp add: listing_body_def dict_get_def)
  have split: "listing_records = take 2 listing_records
      @ PDict [(''id'', PStr ''r2''), (''type'', PStr ''A''), (''name'', PStr ''host.example.com'')]
      # drop 3 listing_records"
    by (simp add: listing_records_def)
  have pre: "\<forall>p\<in>set (take 2 listing_records). is_dict p \<and> \<not> a_record_named (record_name host_dns) p"
    by (simp add: listing_records_def host_dns_def dict_get_def)
  have hit: "a_record_named (record_name host_dns)
      (PDict [(''id'', PStr ''r2''), (''type'', PStr ''A''), (''name'', PStr ''host.example.com'')])"
    by (simp add: host_dns_def dict_get_def)
  have none: "\<forall>r\<in>set listing_records. \<not> a_record_named (record_name ?other) r"
    by (simp add: listing_records_def host_dns_def dict_get_def)
  from find_dns_record_id_first_match [OF h1 h2 h3] split pre hit
  have a: "fst (find_dns_record_id host_dns w_listing) =
      dict_get [(''id'', PStr ''r2''), (''type'', PStr ''A''), (''name'', PStr ''host.example.com'')] ''id'' PNone"
    by blast
  from find_dns_record_id_first_match [OF h1' h2 h3] none
  have b: "fst (find_dns_record_id ?other w_listing) = PNone"
    by blast
  from a b h1 h2 h3 show ?thesis by (simp add: dict_get_def)
qed

section \<open>The workflow cycle\<close>

lemma requests_of_append: "requests_of (xs @ ys) = requests_of xs @ requests_of ys"
  by (induction xs rule: requests_of.induct) simp_all

lemma resolves_of_append: "resolves_of (xs @ ys) = resolves_of xs @ resolves_of ys"
  by (induction xs rule: resolves_of.induct) simp_all

lemma waits_of_append: "waits_of (xs @ ys) = waits_of xs @ waits_of ys"
  by (induction xs rule: waits_of.induct) simp_all

lemma get_my_ip_effects:
  "requests_of (snd (get_my_ip self w)) = [get_ip_request self]"
  "resolves_of (snd (get_my_ip self w)) = []"
  "waits_of (snd (get_my_ip self w)) = []"
  by (auto simp add: get_my_ip_def get_my_ip_try_def Let_def then_py_def
        split: sum.splits http_reply.splits option.splits if_splits)

lemma find_dns_record_id_effects:
  "requests_of (snd (find_dns_record_id self w)) = [find_request self]"
  "resolves_of (snd (find_dns_record_id self w)) = []"
  "waits_of (snd (find_dns_record_id self w)) = []"
  by (auto simp add: find_dns_record_id_def find_dns_record_id_try_def Let_def then_py_def
        split: sum.splits http_reply.splits option.splits if_splits)

lemma update_dns_record_quiet:
  "resolves_of (snd (update_dns_record self ip rid w)) = []"
  "waits_of (snd (update_dns_record self ip rid w)) = []"
  by (auto simp add: update_dns_record_def upsert_try_def Let_def then_py_def
        split: sum.splits http_reply.splits option.splits if_splits)

lemma verify_dns_update_effects:
  "requests_of (snd (verify_dns_update self ip w)) = []"
  "resolves_of (snd (verify_dns_update self ip w)) = [record_name self]"
  "waits_of (snd (verify_dns_update self ip w)) = []"
  by (auto simp add: verify_dns_update_def Let_def split: sum.splits if_splits)

lemma update_dns_record_falsy:
  "\<not> truthy rid \<Longrightarrow> update_dns_record self ip rid w = update_dns_record self ip PNone w"
  by (simp add: update_dns_record_def)

lemma find_dns_record_id_failure:
  "\<not> reported_success (http w (find_request self)) \<Longrightarrow> fst (find_dns_record_id self w) = PNone"
proof -
  assume n: "\<not> reported_success (http w (find_request self))"
  show ?thesis
  proof (cases "http w (find_request self)")
    case (Raises e)
    then show ?thesis by (simp add: find_dns_record_id_def find_dns_record_id_try_def)
  next
    case (Response status body)
    show ?thesis
    proof (cases body)
      case None
      with Response show ?thesis
        by (simp add: find_dns_record_id_def find_dns_record_id_try_def response_json_def then_py_def)
    next
      case (Some result)
      with n Response have "envelope_ok status result \<noteq> Inr True"
        by (simp add: not_reported_success_envelope)
      with Response Some show ?thesis
        by (auto simp add: find_dns_record_id_def find_dns_record_id_try_def response_json_def
              then_py_def split: sum.splits)
    qed
  qed
qed

text \<open>
  Discovery gives no address unless the reply has status 200 and an object as its body (and
  then it gives that object's \<^verbatim>\<open>clientIp\<close>, or \<^verbatim>\<open>None\<close> when the field is missing).
\<close>

lemma get_my_ip_failure:
  assumes "\<forall>kvs. http w (get_ip_request self) \<noteq> Response 200 (Some (PDict kvs))"
  shows "fst (get_my_ip self w) = PNone"
proof (cases "http w (get_ip_request self)")
  case (Raises e)
  then show ?thesis by (simp add: get_my_ip_def get_my_ip_try_def Let_def)
next
  case (Response status body)
  show ?thesis
  proof (cases "status = 200")
    case False
    with Response show ?thesis by (simp add: get_my_ip_def get_my_ip_try_def Let_def)
  next
    case True
    show ?thesis
    proof (cases body)
      case None
      with Response True show ?thesis
        by (simp add: get_my_ip_def get_my_ip_try_def Let_def response_json_def then_py_def)
    next
      case (Some data)
      with assms Response True have "\<not> is_dict data" by (cases data) simp_all
      then have "py_get data ''clientIp'' PNone = Inl AttributeError" by (cases data) simp_all
      with Response True Some show ?thesis
        by (simp add: get_my_ip_def get_my_ip_try_def Let_def response_json_def then_py_def)
    qed
  qed
qed

lemma get_my_ip_success:
  assumes "http w (get_ip_request self) = Response 200 (Some (PDict kvs))"
  shows "fst (get_my_ip self w) = dict_get kvs ''clientIp'' PNone"
  using assms
  by (simp add: get_my_ip_def get_my_ip_try_def Let_def response_json_def then_py_def)

lemma main_no_ip:
  assumes "\<not> truthy (fst (get_my_ip \<lparr>cf_api_token = k, zone_id = z, record_name = n\<rparr> w))"
  shows "main k z n w =
    (Inr PNone,
     [Log INFO [Lit ''['', Now, Lit ''] Running scheduled CF update...'']]
     @ snd (get_my_ip \<lparr>cf_api_token = k, zone_id = z, record_name = n\<rparr> w)
     @ [Log ERROR [Lit ''Failed to get current IP address. Exiting.'']])"
  using assms by (simp add: main_def Let_def split_beta)

lemma main_with_ip_unfold:
  assumes "self = \<lparr>cf_api_token = k, zone_id = z, record_name = n\<rparr>"
    and "ip = fst (get_my_ip self w)"
    and "rid = fst (find_dns_record_id self w)"
    and "up = update_dns_record self ip rid w"
    and "truthy ip"
  shows "main k z n w =
     (let before = [Log INFO [Lit ''['', Now, Lit ''] Running scheduled CF update...'']]
                   @ snd (get_my_ip self w) @ [Log INFO [Lit ''Current IP address: '', Val ip]]
                   @ snd (find_dns_record_id self w)
                   @ [if truthy rid
                      then Log INFO [Lit ''Updating existing DNS record with ID: '', Val rid]
                      else Log INFO [Lit ''No existing record found. Creating a new DNS record for '',
                                     Lit n]]
                   @ snd up
      in if fst up then
           (case fst (verify_dns_update self ip w) of
              Inl e \<Rightarrow> (Inl e, before @ snd (verify_dns_update self ip w))
            | Inr b \<Rightarrow> (Inr PNone, before @ snd (verify_dns_update self ip w)))
         else (Inr PNone, before))"
proof -
  obtain e1 where g: "get_my_ip self w = (ip, e1)"
    using assms(2) by (cases "get_my_ip self w") simp
  obtain e2 where f: "find_dns_record_id self w = (rid, e2)"
    using assms(3) by (cases "find_dns_record_id self w") simp
  obtain b e3 where u: "up = (b, e3)"
    by (cases up)
  obtain r e4 where v: "verify_dns_update self ip w = (r, e4)"
    by (cases "verify_dns_update self ip w")
  have c: "update_dns_record self ip (if truthy rid then rid else PNone) w = (b, e3)"
    using u assms(4) update_dns_record_falsy [of rid self ip w] by (cases "truthy rid") simp_all
  have "main k z n w =
      (let before = [Log INFO [Lit ''['', Now, Lit ''] Running scheduled CF update...'']]
                   @ e1 @ [Log INFO [Lit ''Current IP address: '', Val ip]]
                   @ e2
                   @ [if truthy rid
                      then Log INFO [Lit ''Updating existing DNS record with ID: '', Val rid]
                      else Log INFO [Lit ''No existing record found. Creating a new DNS record for '',
                                     Lit n]]
                   @ e3
      in if b then (case r of Inl e \<Rightarrow> (Inl e, before @ e4) | Inr b \<Rightarrow> (Inr PNone, before @ e4))
         else (Inr PNone, before))"
    unfolding main_def assms(1) [symmetric]
    using c assms(5)
    by (cases "truthy rid"; cases r) (simp_all add: g f v Let_def)
  then show ?thesis
    by (cases r) (simp_all add: g f u v Let_def)
qed

lemma main_with_ip:
  assumes "self = \<lparr>cf_api_token = k, zone_id = z, record_name = n\<rparr>"
    and "ip = fst (get_my_ip self w)"
    and "rid = fst (find_dns_record_id self w)"
    and "truthy ip"
  shows "fst (main k z n w) =
           (if fst (update_dns_record self ip rid w) then
              (case fst (verify_dns_update self ip w) of Inl e \<Rightarrow> Inl e | Inr b \<Rightarrow> Inr PNone)
            else Inr PNone)"
    and "requests_of (snd (main k z n w)) =
           [get_ip_request self, find_request self, upsert_request self ip rid]"
    and "resolves_of (snd (main k z n w)) =
           (if fst (update_dns_record self ip rid w) then [n] else [])"
    and "waits_of (snd (main k z n w)) = []"
proof -
  note m = main_with_ip_unfold [OF assms(1,2,3) refl assms(4)]
  have rn: "record_name self = n" by (simp add: assms(1))
  show "fst (main k z n w) =
           (if fst (update_dns_record self ip rid w) then
              (case fst (verify_dns_update self ip w) of Inl e \<Rightarrow> Inl e | Inr b \<Rightarrow> Inr PNone)
            else Inr PNone)"
    by (cases "fst (verify_dns_update self ip w)") (simp_all add: m Let_def)
  show "requests_of (snd (main k z n w)) =
           [get_ip_request self, find_request self, upsert_request self ip rid]"
    by (cases "fst (verify_dns_update self ip w)")
       (simp_all add: m Let_def requests_of_append get_my_ip_effects find_dns_record_id_effects
          update_dns_record_requests verify_dns_update_effects)
  show "resolves_of (snd (main k z n w)) =
           (if fst (update_dns_record self ip rid w) then [n] else [])"
    by (cases "fst (verify_dns_update self ip w)")
       (simp_all add: m Let_def resolves_of_append get_my_ip_effects find_dns_record_id_effects
          update_dns_record_quiet verify_dns_update_effects rn)
  show "waits_of (snd (main k z n w)) = []"
    by (cases "fst (verify_dns_update self ip w)")
       (simp_all add: m Let_def waits_of_append get_my_ip_effects find_dns_record_id_effects
          update_dns_record_quiet verify_dns_update_effects)
qed

lemma main_no_ip_waits:
  "\<not> truthy (fst (get_my_ip \<lparr>cf_api_token = k, zone_id = z, record_name = n\<rparr> w)) \<Longrightarrow>
     waits_of (snd (main k z n w)) = []"
  by (simp add: main_no_ip waits_of_append get_my_ip_effects)

lemma main_waits: "waits_of (snd (main k z n w)) = []"
  using main_no_ip_waits [of k z n w] main_with_ip(4) [OF refl refl refl, of k z n w]
  by blast

lemma get_my_ip_listing:
  "url (get_ip_request self) = SpeedMeta"
  "fst (get_my_ip self w_listing) = PStr ''203.0.113.7''"
  "fst (get_my_ip self w_upsert_denied) = PStr ''203.0.113.7''"
  "fst (get_my_ip self w_idna_error) = PStr ''203.0.113.7''"
  by (simp_all add: get_my_ip_def get_my_ip_try_def get_ip_request_def w_listing_def
        w_upsert_denied_def w_idna_error_def Let_def then_py_def response_json_def dict_get_def)

lemma find_dns_record_id_listing_host:
  "fst (find_dns_record_id host_dns w_listing) = PStr ''r2''"
  "fst (find_dns_record_id host_dns w_upsert_denied) = PStr ''r2''"
  by (simp_all add: find_dns_record_id_def find_dns_record_id_try_def find_request_def
        w_listing_def w_upsert_denied_def listing_body_def listing_records_def host_dns_def
        Let_def then_py_def response_json_def envelope_ok_def dict_get_def)

lemma update_dns_record_listing_host:
  "fst (update_dns_record host_dns ip (PStr ''r2'') w_listing)"
  "\<not> fst (update_dns_record host_dns ip (PStr ''r2'') w_upsert_denied)"
  by (simp_all add: update_dns_record_result upsert_request_def update_request_def
        w_listing_def w_upsert_denied_def w_put_denied_def dict_get_def)

lemma verify_dns_update_listing_host:
  "fst (verify_dns_update host_dns (PStr ''203.0.113.7'') w_listing) = Inr False"
  by (simp add: verify_dns_update_def w_listing_def Let_def)

lemma main_listing_host:
  "fst (main ''token'' ''zone1'' ''host.example.com'' w_listing) = Inr PNone"
  by (simp add: main_with_ip(1) [OF host_dns_def refl refl] get_my_ip_listing
        find_dns_record_id_listing_host update_dns_record_listing_host
        verify_dns_update_listing_host)

lemma find_dns_record_id_bad_name:
  "fst (find_dns_record_id bad_name_dns w_idna_error) = PNone"
  by (simp add: find_dns_record_id_def find_dns_record_id_try_def find_request_def
        w_listing_def w_idna_error_def listing_body_def listing_records_def bad_name_dns_def
        Let_def then_py_def response_json_def envelope_ok_def dict_get_def)

lemma update_dns_record_bad_name:
  "fst (update_dns_record bad_name_dns ip PNone w_idna_error)"
  by (simp add: update_dns_record_result upsert_request_def create_request_def
        w_listing_def w_idna_error_def dict_get_def)

lemma verify_dns_update_bad_name:
  "fst (verify_dns_update bad_name_dns ip w_idna_error) = Inl UnicodeError"
  by (simp add: verify_dns_update_def w_idna_error_def Let_def)

lemma main_bad_name:
  "fst (main ''token'' ''zone1'' ''host..example.com'' w_idna_error) = Inl UnicodeError"
  by (simp add: main_with_ip(1) [OF bad_name_dns_def refl refl] get_my_ip_listing
        find_dns_record_id_bad_name update_dns_record_bad_name verify_dns_update_bad_name)

text \<open>
  Claim C4. In a cycle in which \<^verbatim>\<open>get_my_ip\<close> returns no address (\<^verbatim>\<open>None\<close>, or any other
  false value), \<^verbatim>\<open>main\<close> logs the failure as its last act and returns at once: the request
  for the address is the only request of the cycle, so neither the lookup nor an upsert is
  sent, and no name is resolved.
\<close>

theorem main_discovery_failure:
  assumes "\<not> truthy (fst (get_my_ip \<lparr>cf_api_token = k, zone_id = z, record_name = n\<rparr> w))"
  shows "fst (main k z n w) = Inr PNone
       \<and> requests_of (snd (main k z n w))
           = [get_ip_request \<lparr>cf_api_token = k, zone_id = z, record_name = n\<rparr>]
       \<and> resolves_of (snd (main k z n w)) = []
       \<and> last (snd (main k z n w))
           = Log ERROR [Lit ''Failed to get current IP address. Exiting.'']"
  by (simp add: main_no_ip [OF assms] requests_of_append resolves_of_append get_my_ip_effects)

theorem main_discovery_failure_witness:
  "\<not> truthy (fst (get_my_ip \<lparr>cf_api_token = ''token'', zone_id = ''zone1'',
                               record_name = ''host.example.com''\<rparr> w_put_denied))
   \<and> fst (main ''token'' ''zone1'' ''host.example.com'' w_put_denied) = Inr PNone
   \<and> requests_of (snd (main ''token'' ''zone1'' ''host.example.com'' w_put_denied))
        = [get_ip_request host_dns]
   \<and> resolves_of (snd (main ''token'' ''zone1'' ''host.example.com'' w_put_denied)) = []"
proof -
  have h: "\<not> truthy (fst (get_my_ip \<lparr>cf_api_token = ''token'', zone_id = ''zone1'',
                               record_name = ''host.example.com''\<rparr> w_put_denied))"
    by (simp add: get_my_ip_def get_my_ip_try_def w_put_denied_def Let_def)
  from h main_discovery_failure [OF h] show ?thesis
    by (simp add: host_dns_def)
qed

text \<open>
  Claim C1, as stated, on a cycle whose lookup is answered with status 500 and a provider
  error: \<^verbatim>\<open>find_dns_record_id\<close> returns \<^verbatim>\<open>None\<close>, and the cycle goes on to send an upsert, the
  create request.
\<close>

theorem main_lookup_failure_creates:
  "\<not> reported_success (http w_lookup_down (find_request host_dns))
   \<and> fst (find_dns_record_id host_dns w_lookup_down) = PNone
   \<and> requests_of (snd (main ''token'' ''zone1'' ''host.example.com'' w_lookup_down))
        = [get_ip_request host_dns, find_request host_dns,
           create_request host_dns (PStr ''203.0.113.7'')]
   \<and> verb (create_request host_dns (PStr ''203.0.113.7'')) = POST"
proof -
  have ip: "fst (get_my_ip host_dns w_lookup_down) = PStr ''203.0.113.7''"
    by (simp add: get_my_ip_def get_my_ip_try_def get_ip_request_def w_lookup_down_def Let_def
          then_py_def response_json_def dict_get_def)
  have n: "\<not> reported_success (http w_lookup_down (find_request host_dns))"
    by (simp add: w_lookup_down_def find_request_def dict_get_def)
  have f: "fst (find_dns_record_id host_dns w_lookup_down) = PNone"
    using n by (rule find_dns_record_id_failure)
  have t: "truthy (fst (get_my_ip host_dns w_lookup_down))"
    by (simp add: ip)
  have "requests_of (snd (main ''token'' ''zone1'' ''host.example.com'' w_lookup_down))
        = [get_ip_request host_dns, find_request host_dns,
           upsert_request host_dns (fst (get_my_ip host_dns w_lookup_down))
             (fst (find_dns_record_id host_dns w_lookup_down))]"
    using main_with_ip(2) [OF host_dns_def refl refl t] .
  with n f ip show ?thesis
    by (simp add: upsert_request_def create_request_def)
qed

text \<open>
  Claim C1, amended. A lookup that fails (the call raises, the body does not parse, the
  status is not 200, or the provider does not report success) makes \<^verbatim>\<open>find_dns_record_id\<close>
  return \<^verbatim>\<open>None\<close>, the value it returns for a record that is not found, and the cycle goes
  on as for a record that is not found: after the address request and the lookup it sends
  exactly one upsert, the create request (POST) for the discovered address.
\<close>

theorem main_lookup_failure:
  assumes "self = \<lparr>cf_api_token = k, zone_id = z, record_name = n\<rparr>"
    and "truthy (fst (get_my_ip self w))"
    and "\<not> reported_success (http w (find_request self))"
  shows "fst (find_dns_record_id self w) = PNone
       \<and> requests_of (snd (main k z n w))
           = [get_ip_request self, find_request self,
              create_request self (fst (get_my_ip self w))]
       \<and> verb (create_request self (fst (get_my_ip self w))) = POST"
proof -
  have f: "fst (find_dns_record_id self w) = PNone"
    using assms(3) by (rule find_dns_record_id_failure)
  from main_with_ip(2) [OF assms(1) refl refl assms(2)] f show ?thesis
    by (simp add: upsert_request_def create_request_def)
qed

theorem main_lookup_failure_witness:
  "host_dns = \<lparr>cf_api_token = ''token'', zone_id = ''zone1'', record_name = ''host.example.com''\<rparr>
   \<and> truthy (fst (get_my_ip host_dns w_lookup_down))
   \<and> \<not> reported_success (http w_lookup_down (find_request host_dns))
   \<and> requests_of (snd (main ''token'' ''zone1'' ''host.example.com'' w_lookup_down))
        = [get_ip_request host_dns, find_request host_dns,
           create_request host_dns (PStr ''203.0.113.7'')]"
proof -
  have ip: "fst (get_my_ip host_dns w_lookup_down) = PStr ''203.0.113.7''"
    by (simp add: get_my_ip_def get_my_ip_try_def get_ip_request_def w_lookup_down_def Let_def
          then_py_def response_json_def dict_get_def)
  have t: "truthy (fst (get_my_ip host_dns w_lookup_down))"
    by (simp add: ip)
  have n: "\<not> reported_success (http w_lookup_down (find_request host_dns))"
    by (simp add: w_lookup_down_def find_request_def dict_get_def)
  from main_lookup_failure [OF host_dns_def t n] t n ip show ?thesis
    by (simp add: host_dns_def [symmetric])
qed

text \<open>
  Claim C5, as stated, on two cycles: one whose upsert succeeds and whose verification
  finds another address, one whose upsert is turned down. \<^verbatim>\<open>main\<close> returns \<^verbatim>\<open>None\<close> from both:
  no boolean, and nothing that tells the first cycle from the second.
\<close>

theorem main_returns_none_either_way:
  "fst (update_dns_record host_dns (PStr ''203.0.113.7'') (PStr ''r2'') w_listing)
   \<and> fst (verify_dns_update host_dns (PStr ''203.0.113.7'') w_listing) = Inr False
   \<and> fst (main ''token'' ''zone1'' ''host.example.com'' w_listing) = Inr PNone
   \<and> fst (main ''token'' ''zone1'' ''host.example.com'' w_listing) \<noteq> Inr (PBool True)
   \<and> \<not> fst (update_dns_record host_dns (PStr ''203.0.113.7'') (PStr ''r2'') w_upsert_denied)
   \<and> fst (main ''token'' ''zone1'' ''host.example.com'' w_upsert_denied) = Inr PNone"
proof -
  have a: "fst (main ''token'' ''zone1'' ''host.example.com'' w_listing) = Inr PNone"
    by (simp add: main_with_ip(1) [OF host_dns_def refl refl] get_my_ip_listing
          find_dns_record_id_listing_host update_dns_record_listing_host
          verify_dns_update_listing_host)
  have b: "fst (main ''token'' ''zone1'' ''host.example.com'' w_upsert_denied) = Inr PNone"
    by (simp add: main_with_ip(1) [OF host_dns_def refl refl] get_my_ip_listing
          find_dns_record_id_listing_host update_dns_record_listing_host)
  from a b show ?thesis
    by (simp add: update_dns_record_listing_host verify_dns_update_listing_host)
qed

text \<open>
  Claim C5, amended. In a cycle that discovered an address: when the upsert succeeds the
  verification is performed (the record name is resolved, once), and whether it finds the
  expected address, another one, or no address at all, \<^verbatim>\<open>main\<close> returns \<^verbatim>\<open>None\<close>; when the
  upsert fails no name is resolved, and \<^verbatim>\<open>main\<close> returns \<^verbatim>\<open>None\<close> as well. \<^verbatim>\<open>main\<close> gives its
  caller no success or failure value on any path that returns.
\<close>

theorem main_verification_advisory:
  assumes "self = \<lparr>cf_api_token = k, zone_id = z, record_name = n\<rparr>"
    and "ip = fst (get_my_ip self w)"
    and "rid = fst (find_dns_record_id self w)"
    and "truthy ip"
  shows "(fst (update_dns_record self ip rid w) \<longrightarrow>
            resolves_of (snd (main k z n w)) = [n]
            \<and> (\<forall>verified. fst (verify_dns_update self ip w) = Inr verified \<longrightarrow>
                   fst (main k z n w) = Inr PNone))
       \<and> (\<not> fst (update_dns_record self ip rid w) \<longrightarrow>
            resolves_of (snd (main k z n w)) = [] \<and> fst (main k z n w) = Inr PNone)"
  using main_with_ip(1) [OF assms] main_with_ip(3) [OF assms] by simp

theorem main_verification_advisory_witness:
  "host_dns = \<lparr>cf_api_token = ''token'', zone_id = ''zone1'', record_name = ''host.example.com''\<rparr>
   \<and> truthy (fst (get_my_ip host_dns w_listing))
   \<and> fst (update_dns_record host_dns (fst (get_my_ip host_dns w_listing))
             (fst (find_dns_record_id host_dns w_listing)) w_listing)
   \<and> fst (verify_dns_update host_dns (fst (get_my_ip host_dns w_listing)) w_listing) = Inr False
   \<and> resolves_of (snd (main ''token'' ''zone1'' ''host.example.com'' w_listing))
        = [''host.example.com'']
   \<and> fst (main ''token'' ''zone1'' ''host.example.com'' w_listing) = Inr PNone"
proof -
  have t: "truthy (fst (get_my_ip host_dns w_listing))"
    by (simp add: get_my_ip_listing)
  have u: "fst (update_dns_record host_dns (fst (get_my_ip host_dns w_listing))
             (fst (find_dns_record_id host_dns w_listing)) w_listing)"
    by (simp add: find_dns_record_id_listing_host update_dns_record_listing_host)
  have v: "fst (verify_dns_update host_dns (fst (get_my_ip host_dns w_listing)) w_listing) = Inr False"
    by (simp add: get_my_ip_listing verify_dns_update_listing_host)
  from main_verification_advisory [OF host_dns_def refl refl t] u v
  have "resolves_of (snd (main ''token'' ''zone1'' ''host.example.com'' w_listing))
          = [''host.example.com'']
        \<and> fst (main ''token'' ''zone1'' ''host.example.com'' w_listing) = Inr PNone"
    by blast
  with t u v host_dns_def show ?thesis by blast
qed

text \<open>
  Claim C8 on a cycle whose record name the resolver call cannot encode: the
  \<^verbatim>\<open>UnicodeError\<close> is not a \<^verbatim>\<open>socket.gaierror\<close>, so it leaves \<^verbatim>\<open>verify_dns_update\<close>, then
  \<^verbatim>\<open>main\<close>, then \<^verbatim>\<open>run\<close>, which ends after one of its three cycles.
\<close>

theorem verification_exception_escapes:
  "fst (verify_dns_update bad_name_dns (PStr ''203.0.113.7'') w_idna_error) = Inl UnicodeError
   \<and> fst (main ''token'' ''zone1'' ''host..example.com'' w_idna_error) = Inl UnicodeError
   \<and> run 3 (Inr (''token'', ''zone1'', ''host..example.com'')) (\<lambda>i. w_idna_error)
         (Some ''hourly'') 3
       = Returned \<lparr>invocations = 1,
                   effects = snd (main ''token'' ''zone1'' ''host..example.com'' w_idna_error),
                   raised = Some UnicodeError\<rparr>"
proof -
  obtain es where m: "main ''token'' ''zone1'' ''host..example.com'' w_idna_error = (Inl UnicodeError, es)"
    using main_bad_name by (cases "main ''token'' ''zone1'' ''host..example.com'' w_idna_error") simp
  show ?thesis
    by (simp add: verify_dns_update_bad_name main_bad_name run_def m)
qed

section \<open>The scheduler\<close>

lemma scheduler_run_idle:
  "idle st \<Longrightarrow> scheduler_run fuel secrets worlds mode num_runs st = Returned (observe st)"
  by (cases fuel) simp_all

lemma scheduler_run_busy:
  "\<not> idle st \<Longrightarrow>
     scheduler_run (Suc fuel) secrets worlds mode num_runs st =
       scheduler_run fuel secrets worlds mode num_runs
         (scheduler_step secrets worlds mode num_runs st)"
  by simp

lemma later_cycles_none: "later_cycles k z n worlds d i i = []"
  by (simp add: later_cycles_def)

lemma later_cycles_first:
  "i < j \<Longrightarrow>
     later_cycles k z n worlds d i j =
       Wait d # snd (main k z n (worlds i)) @ later_cycles k z n worlds d (Suc i) j"
  by (simp add: later_cycles_def upt_conv_Cons)

lemma waits_of_later_cycles:
  "waits_of (later_cycles k z n worlds d i j) = replicate (j - i) d"
proof (induction "j - i" arbitrary: i)
  case 0
  then show ?case by (simp add: later_cycles_def)
next
  case (Suc r)
  then have "i < j" and "r = j - Suc i" by simp_all
  with Suc.hyps(1) [of "Suc i"] Suc.hyps(2) [symmetric] show ?case
    by (simp add: later_cycles_first waits_of_append main_waits)
qed

text \<open>One turn of the loop whose call of main returns.\<close>

lemma scheduler_step_returns:
  assumes "pending st = Some d"
    and "fst (main k z n (worlds (invocations st))) = Inr v"
  shows "invocations (scheduler_step (k, z, n) worlds mode num_runs st) = Suc (invocations st)"
    and "effects (scheduler_step (k, z, n) worlds mode num_runs st) =
           effects st @ [Wait d] @ snd (main k z n (worlds (invocations st)))"
    and "raised (scheduler_step (k, z, n) worlds mode num_runs st) = raised st"
    and "runs_left (scheduler_step (k, z, n) worlds mode num_runs st) =
           (if num_runs = 0 \<or> runs_left st > 0 then runs_left st - 1 else runs_left st)"
    and "pending (scheduler_step (k, z, n) worlds mode num_runs st) =
           (if num_runs = 0 \<or> runs_left st > 1 then Some (get_interval_seconds mode) else None)"
proof -
  obtain es where m: "main k z n (worlds (invocations st)) = (Inr v, es)"
    using assms(2) by (cases "main k z n (worlds (invocations st))") simp
  show "invocations (scheduler_step (k, z, n) worlds mode num_runs st) = Suc (invocations st)"
    and "effects (scheduler_step (k, z, n) worlds mode num_runs st) =
           effects st @ [Wait d] @ snd (main k z n (worlds (invocations st)))"
    and "raised (scheduler_step (k, z, n) worlds mode num_runs st) = raised st"
    and "runs_left (scheduler_step (k, z, n) worlds mode num_runs st) =
           (if num_runs = 0 \<or> runs_left st > 0 then runs_left st - 1 else runs_left st)"
    and "pending (scheduler_step (k, z, n) worlds mode num_runs st) =
           (if num_runs = 0 \<or> runs_left st > 1 then Some (get_interval_seconds mode) else None)"
    by (auto simp add: scheduler_step_def run_and_reschedule_def schedule_next_def assms(1) m Let_def)
qed

text \<open>One turn of the loop whose call of main raises: nothing more is scheduled.\<close>

lemma scheduler_step_raises:
  assumes "pending st = Some d"
    and "fst (main k z n (worlds (invocations st))) = Inl e"
  shows "observe (scheduler_step (k, z, n) worlds mode num_runs st) =
           \<lparr>invocations = Suc (invocations st),
            effects = effects st @ [Wait d] @ snd (main k z n (worlds (invocations st))),
            raised = Some e\<rparr>"
    and "idle (scheduler_step (k, z, n) worlds mode num_runs st)"
proof -
  obtain es where m: "main k z n (worlds (invocations st)) = (Inl e, es)"
    using assms(2) by (cases "main k z n (worlds (invocations st))") simp
  show "observe (scheduler_step (k, z, n) worlds mode num_runs st) =
           \<lparr>invocations = Suc (invocations st),
            effects = effects st @ [Wait d] @ snd (main k z n (worlds (invocations st))),
            raised = Some e\<rparr>"
    and "idle (scheduler_step (k, z, n) worlds mode num_runs st)"
    by (simp_all add: scheduler_step_def run_and_reschedule_def assms(1) m Let_def observe_def
          idle_def)
qed

lemma scheduler_run_bounded:
  assumes "num_runs \<noteq> 0"
    and "\<forall>i. \<exists>v. fst (main k z n (worlds i)) = Inr v"
  shows "raised st = None \<Longrightarrow>
     (if runs_left st > 0 then pending st = Some (get_interval_seconds mode) else pending st = None) \<Longrightarrow>
     nat (runs_left st) \<le> fuel \<Longrightarrow>
     scheduler_run fuel (k, z, n) worlds mode num_runs st =
       Returned \<lparr>invocations = invocations st + nat (runs_left st),
                 effects = effects st @ later_cycles k z n worlds (get_interval_seconds mode)
                             (invocations st) (invocations st + nat (runs_left st)),
                 raised = None\<rparr>"
proof (induction fuel arbitrary: st)
  case 0
  then have "idle st" by (simp add: idle_def split: if_splits)
  with 0 show ?case by (simp add: scheduler_run_idle observe_def later_cycles_none)
next
  case (Suc fuel)
  show ?case
  proof (cases "runs_left st > 0")
    case False
    with Suc.prems have "idle st" by (simp add: idle_def)
    with False Suc.prems(1) show ?thesis
      by (simp add: scheduler_run_idle observe_def later_cycles_none)
  next
    case True
    with Suc.prems have p: "pending st = Some (get_interval_seconds mode)" by simp
    with Suc.prems have busy: "\<not> idle st" by (simp add: idle_def)
    from assms(2) obtain v where v: "fst (main k z n (worlds (invocations st))) = Inr v"
      by blast
    let ?st' = "scheduler_step (k, z, n) worlds mode num_runs st"
    note f = scheduler_step_returns [of st "get_interval_seconds mode" k z n worlds v mode num_runs,
               OF p v]
    have a: "raised ?st' = None" "invocations ?st' = Suc (invocations st)"
      "runs_left ?st' = runs_left st - 1"
      "effects ?st' = effects st @ [Wait (get_interval_seconds mode)]
                        @ snd (main k z n (worlds (invocations st)))"
      using Suc.prems(1) True by (simp_all add: f)
    have b: "if runs_left ?st' > 0 then pending ?st' = Some (get_interval_seconds mode)
             else pending ?st' = None"
      using assms(1) True by (simp add: f)
    have c: "nat (runs_left ?st') \<le> fuel"
      using Suc.prems(3) True by (simp add: a)
    have r: "nat (runs_left st) = Suc (nat (runs_left st - 1))"
      using True by simp
    from Suc.IH [OF a(1) b c] show ?thesis
      unfolding scheduler_run_busy [OF busy] a
      by (simp add: r later_cycles_first)
  qed
qed

lemma scheduler_run_unbounded:
  assumes "\<forall>i. \<exists>v. fst (main k z n (worlds i)) = Inr v"
  shows "raised st = None \<Longrightarrow> pending st = Some (get_interval_seconds mode) \<Longrightarrow>
     scheduler_run fuel (k, z, n) worlds mode 0 st =
       Running \<lparr>invocations = invocations st + fuel,
                effects = effects st @ later_cycles k z n worlds (get_interval_seconds mode)
                            (invocations st) (invocations st + fuel),
                raised = None\<rparr>"
proof (induction fuel arbitrary: st)
  case 0
  then have "\<not> idle st" by (simp add: idle_def)
  with 0 show ?case by (simp add: observe_def later_cycles_none)
next
  case (Suc fuel)
  then have busy: "\<not> idle st" by (simp add: idle_def)
  from assms obtain v where v: "fst (main k z n (worlds (invocations st))) = Inr v"
    by blast
  let ?st' = "scheduler_step (k, z, n) worlds mode 0 st"
  note f = scheduler_step_returns [of st "get_interval_seconds mode" k z n worlds v mode 0,
             OF Suc.prems(2) v]
  have a: "raised ?st' = None" "invocations ?st' = Suc (invocations st)"
    "effects ?st' = effects st @ [Wait (get_interval_seconds mode)]
                      @ snd (main k z n (worlds (invocations st)))"
    using Suc.prems(1) by (simp_all add: f)
  have b: "pending ?st' = Some (get_interval_seconds mode)"
    by (simp add: f)
  from Suc.IH [OF a(1) b] show ?case
    unfolding scheduler_run_busy [OF busy] a
    by (simp add: later_cycles_first)
qed

lemma run_scheduled:
  assumes "k \<noteq> []" "z \<noteq> []" "n \<noteq> []" "m \<noteq> []"
    and "main k z n (worlds 0) = (Inr v, es)"
  shows "run fuel (Inr (k, z, n)) worlds (Some m) num_runs =
           scheduler_run fuel (k, z, n) worlds m num_runs
             (schedule_next m num_runs
                \<lparr>invocations = 1, effects = es, raised = None,
                 runs_left = num_runs - 1, pending = None\<rparr>)"
  using assms by (simp add: run_def)

lemma run_once:
  assumes "k \<noteq> []" "z \<noteq> []" "n \<noteq> []"
    and "mode = None \<or> mode = Some []"
  shows "run fuel (Inr (k, z, n)) worlds mode num_runs =
           Returned \<lparr>invocations = 1, effects = snd (main k z n (worlds 0)),
                     raised = (case fst (main k z n (worlds 0)) of
                                 Inl e \<Rightarrow> Some e | Inr v \<Rightarrow> None)\<rparr>"
proof -
  obtain r es where m: "main k z n (worlds 0) = (r, es)"
    by (cases "main k z n (worlds 0)")
  from assms m show ?thesis
    by (cases r) (auto simp add: run_def)
qed

lemma run_bounded:
  assumes "k \<noteq> []" "z \<noteq> []" "n \<noteq> []" "m \<noteq> []"
    and "\<forall>i. \<exists>v. fst (main k z n (worlds i)) = Inr v"
    and "0 < num_runs" and "num_runs - 1 \<le> int fuel"
  shows "run fuel (Inr (k, z, n)) worlds (Some m) num_runs =
           Returned \<lparr>invocations = nat num_runs,
                     effects = snd (main k z n (worlds 0))
                       @ later_cycles k z n worlds (get_interval_seconds m) 1 (nat num_runs),
                     raised = None\<rparr>"
proof -
  from assms(5) obtain v where "fst (main k z n (worlds 0)) = Inr v" by blast
  then obtain es where m0: "main k z n (worlds 0) = (Inr v, es)"
    by (cases "main k z n (worlds 0)") simp
  let ?st = "schedule_next m num_runs
                \<lparr>invocations = 1, effects = es, raised = None,
                 runs_left = num_runs - 1, pending = None\<rparr>"
  have a: "raised ?st = None" "invocations ?st = 1" "runs_left ?st = num_runs - 1"
    "effects ?st = es"
    by (simp_all add: schedule_next_def)
  have b: "if runs_left ?st > 0 then pending ?st = Some (get_interval_seconds m)
           else pending ?st = None"
    using assms(6) by (simp add: schedule_next_def)
  have c: "nat (runs_left ?st) \<le> fuel"
    unfolding a using assms(7) by simp
  have nz: "num_runs \<noteq> 0" using assms(6) by simp
  have s: "Suc (nat (num_runs - 1)) = nat num_runs" using assms(6) by simp
  from scheduler_run_bounded [OF nz assms(5) a(1) b c] show ?thesis
    unfolding run_scheduled [where worlds = worlds, OF assms(1-4) m0] a
    by (simp add: s m0)
qed

lemma run_unbounded:
  assumes "k \<noteq> []" "z \<noteq> []" "n \<noteq> []" "m \<noteq> []"
    and "\<forall>i. \<exists>v. fst (main k z n (worlds i)) = Inr v"
  shows "run fuel (Inr (k, z, n)) worlds (Some m) 0 =
           Running \<lparr>invocations = Suc fuel,
                    effects = snd (main k z n (worlds 0))
                      @ later_cycles k z n worlds (get_interval_seconds m) 1 (Suc fuel),
                    raised = None\<rparr>"
proof -
  from assms(5) obtain v where "fst (main k z n (worlds 0)) = Inr v" by blast
  then obtain es where m0: "main k z n (worlds 0) = (Inr v, es)"
    by (cases "main k z n (worlds 0)") simp
  let ?st = "schedule_next m 0
                \<lparr>invocations = 1, effects = es, raised = None,
                 runs_left = 0 - 1, pending = None\<rparr>"
  have a: "raised ?st = None" "invocations ?st = 1" "effects ?st = es"
    by (simp_all add: schedule_next_def)
  have b: "pending ?st = Some (get_interval_seconds m)"
    by (simp add: schedule_next_def)
  from scheduler_run_unbounded [OF assms(5) a(1) b] show ?thesis
    unfolding run_scheduled [where worlds = worlds, OF assms(1-4) m0] a
    by (simp add: m0)
qed

text \<open>
  What \<^verbatim>\<open>run\<close> does when the secrets are there and no cycle ends in an exception. Without a
  repeat mode it returns after the one call of \<^verbatim>\<open>main\<close>. With a repeat mode and
  \<open>num_runs = N > 0\<close> it returns, given \<open>N - 1\<close> turns of the scheduler's loop, after exactly
  \<open>N\<close> calls of \<^verbatim>\<open>main\<close>: its effects are those of the first call followed, for each later
  call, by a wait of the mode's interval and the effects of that call. With \<open>num_runs = 0\<close>
  it never returns: after any number \<open>fuel\<close> of turns it is still running, and its effects
  are those of \<open>fuel + 1\<close> calls with a wait of the interval before each but the first.
\<close>

lemma run_when_cycles_return:
  assumes "k \<noteq> []" "z \<noteq> []" "n \<noteq> []"
    and "\<forall>i. \<exists>v. fst (main k z n (worlds i)) = Inr v"
  shows "run fuel (Inr (k, z, n)) worlds None num_runs =
           Returned \<lparr>invocations = 1, effects = snd (main k z n (worlds 0)), raised = None\<rparr>"
    and "m \<noteq> [] \<Longrightarrow> 0 < num_runs \<Longrightarrow> num_runs - 1 \<le> int fuel \<Longrightarrow>
         run fuel (Inr (k, z, n)) worlds (Some m) num_runs =
           Returned \<lparr>invocations = nat num_runs,
                     effects = snd (main k z n (worlds 0))
                       @ later_cycles k z n worlds (get_interval_seconds m) 1 (nat num_runs),
                     raised = None\<rparr>"
    and "m \<noteq> [] \<Longrightarrow>
         run fuel (Inr (k, z, n)) worlds (Some m) 0 =
           Running \<lparr>invocations = Suc fuel,
                    effects = snd (main k z n (worlds 0))
                      @ later_cycles k z n worlds (get_interval_seconds m) 1 (Suc fuel),
                    raised = None\<rparr>"
proof -
  from assms(4) obtain v where v: "fst (main k z n (worlds 0)) = Inr v" by blast
  show "run fuel (Inr (k, z, n)) worlds None num_runs =
           Returned \<lparr>invocations = 1, effects = snd (main k z n (worlds 0)), raised = None\<rparr>"
    using run_once [OF assms(1-3), of None fuel worlds num_runs] by (simp add: v)
  show "m \<noteq> [] \<Longrightarrow> 0 < num_runs \<Longrightarrow> num_runs - 1 \<le> int fuel \<Longrightarrow>
         run fuel (Inr (k, z, n)) worlds (Some m) num_runs =
           Returned \<lparr>invocations = nat num_runs,
                     effects = snd (main k z n (worlds 0))
                       @ later_cycles k z n worlds (get_interval_seconds m) 1 (nat num_runs),
                     raised = None\<rparr>"
    by (rule run_bounded [OF assms(1-3) _ assms(4)])
  show "m \<noteq> [] \<Longrightarrow>
         run fuel (Inr (k, z, n)) worlds (Some m) 0 =
           Running \<lparr>invocations = Suc fuel,
                    effects = snd (main k z n (worlds 0))
                      @ later_cycles k z n worlds (get_interval_seconds m) 1 (Suc fuel),
                    raised = None\<rparr>"
    by (rule run_unbounded [OF assms(1-3) _ assms(4)])
qed

text \<open>The scenario of the specification: mode "min", three runs.\<close>

lemma run_min_three:
  "run 5 (Inr (''token'', ''zone1'', ''host.example.com'')) (\<lambda>i. w_listing) (Some ''min'') 3 =
     Returned \<lparr>invocations = 3,
               effects = snd (main ''token'' ''zone1'' ''host.example.com'' w_listing)
                 @ Wait 60 # snd (main ''token'' ''zone1'' ''host.example.com'' w_listing)
                 @ Wait 60 # snd (main ''token'' ''zone1'' ''host.example.com'' w_listing),
               raised = None\<rparr>"
proof -
  have h: "\<forall>i. \<exists>v. fst (main ''token'' ''zone1'' ''host.example.com'' ((\<lambda>i. w_listing) i)) = Inr v"
    by (simp add: main_listing_host)
  have i: "get_interval_seconds ''min'' = 60"
    by (simp add: get_interval_seconds_def)
  from run_when_cycles_return(2) [of "''token''" "''zone1''" "''host.example.com''"
         "\<lambda>i. w_listing" "''min''" 3 5, OF _ _ _ h]
  show ?thesis
    by (simp add: i later_cycles_def numeral_3_eq_3)
qed

lemma find_dns_record_id_bad_name_denied:
  "fst (find_dns_record_id bad_name_dns w_upsert_denied) = PNone"
  by (simp add: find_dns_record_id_def find_dns_record_id_try_def find_request_def
        w_listing_def w_upsert_denied_def listing_body_def listing_records_def bad_name_dns_def
        Let_def then_py_def response_json_def envelope_ok_def dict_get_def)

lemma update_dns_record_bad_name_denied:
  "\<not> fst (update_dns_record bad_name_dns ip PNone w_upsert_denied)"
  by (simp add: update_dns_record_result upsert_request_def create_request_def
        w_upsert_denied_def w_put_denied_def dict_get_def)

lemma main_bad_name_denied:
  "fst (main ''token'' ''zone1'' ''host..example.com'' w_upsert_denied) = Inr PNone"
  by (simp add: main_with_ip(1) [OF bad_name_dns_def refl refl] get_my_ip_listing
        find_dns_record_id_bad_name_denied update_dns_record_bad_name_denied)

text \<open>
  Claim C3 on a run with mode "hourly" and a record name that the resolver call cannot
  encode, where the provider turns the upsert of the first cycle down and accepts the next.
  The second cycle ends in \<^verbatim>\<open>UnicodeError\<close>, which leaves \<^verbatim>\<open>main\<close> and the scheduler: with
  three runs asked for, \<^verbatim>\<open>run\<close> ends after two calls of \<^verbatim>\<open>main\<close> (the first, one wait of
  3600 seconds, the second), and with a run count of 0 it ends after the same two calls
  instead of going on.
\<close>

theorem run_cut_short_by_exception:
  "run 3 (Inr (''token'', ''zone1'', ''host..example.com'')) denied_then_idna_error
     (Some ''hourly'') 3 =
     Returned \<lparr>invocations = 2,
               effects = snd (main ''token'' ''zone1'' ''host..example.com'' w_upsert_denied)
                 @ [Wait 3600]
                 @ snd (main ''token'' ''zone1'' ''host..example.com'' w_idna_error),
               raised = Some UnicodeError\<rparr>
   \<and> run 3 (Inr (''token'', ''zone1'', ''host..example.com'')) denied_then_idna_error
       (Some ''hourly'') 0 =
     Returned \<lparr>invocations = 2,
               effects = snd (main ''token'' ''zone1'' ''host..example.com'' w_upsert_denied)
                 @ [Wait 3600]
                 @ snd (main ''token'' ''zone1'' ''host..example.com'' w_idna_error),
               raised = Some UnicodeError\<rparr>"
proof -
  obtain es where m0:
    "main ''token'' ''zone1'' ''host..example.com'' (denied_then_idna_error 0) = (Inr PNone, es)"
    using main_bad_name_denied
    by (cases "main ''token'' ''zone1'' ''host..example.com'' w_upsert_denied")
       (simp add: denied_then_idna_error_def)
  have es: "es = snd (main ''token'' ''zone1'' ''host..example.com'' w_upsert_denied)"
    using m0 by (simp add: denied_then_idna_error_def)
  have i: "get_interval_seconds ''hourly'' = 3600"
    by (simp add: get_interval_seconds_def)
  have t: "(3::nat) = Suc 2" by simp
  have r: "\<And>num_runs. num_runs = 3 \<or> num_runs = 0 \<Longrightarrow>
     run 3 (Inr (''token'', ''zone1'', ''host..example.com'')) denied_then_idna_error
       (Some ''hourly'') num_runs =
     Returned \<lparr>invocations = 2, effects = es @ [Wait 3600]
                  @ snd (main ''token'' ''zone1'' ''host..example.com'' w_idna_error),
               raised = Some UnicodeError\<rparr>"
  proof -
    fix num_runs :: int
    assume c: "num_runs = 3 \<or> num_runs = 0"
    let ?st = "schedule_next ''hourly'' num_runs
                \<lparr>invocations = 1, effects = es, raised = None,
                 runs_left = num_runs - 1, pending = None\<rparr>"
    have a: "pending ?st = Some 3600" "invocations ?st = 1" "effects ?st = es"
      "raised ?st = None"
      using c by (auto simp add: schedule_next_def i)
    have busy: "\<not> idle ?st" using a by (simp add: idle_def)
    have e: "fst (main ''token'' ''zone1'' ''host..example.com''
               (denied_then_idna_error (invocations ?st))) = Inl UnicodeError"
      using a(2) by (simp add: denied_then_idna_error_def main_bad_name)
    note s = scheduler_step_raises [of ?st 3600 "''token''" "''zone1''" "''host..example.com''"
               denied_then_idna_error UnicodeError "''hourly''" num_runs, OF a(1) e]
    have "run 3 (Inr (''token'', ''zone1'', ''host..example.com'')) denied_then_idna_error
            (Some ''hourly'') num_runs =
          scheduler_run 3 (''token'', ''zone1'', ''host..example.com'') denied_then_idna_error
            ''hourly'' num_runs ?st"
      by (rule run_scheduled [where worlds = denied_then_idna_error, OF _ _ _ _ m0]) simp_all
    also have "\<dots> = Returned (observe (scheduler_step (''token'', ''zone1'', ''host..example.com'')
                          denied_then_idna_error ''hourly'' num_runs ?st))"
      unfolding t scheduler_run_busy [OF busy] by (rule scheduler_run_idle [OF s(2)])
    finally show "run 3 (Inr (''token'', ''zone1'', ''host..example.com'')) denied_then_idna_error
       (Some ''hourly'') num_runs =
     Returned \<lparr>invocations = 2, effects = es @ [Wait 3600]
                  @ snd (main ''token'' ''zone1'' ''host..example.com'' w_idna_error),
               raised = Some UnicodeError\<rparr>"
      using s(1) a by (simp add: denied_then_idna_error_def)
  qed
  from r [of 3] r [of 0] show ?thesis by (simp add: es)
qed



end
